theory Spec2Isabelle
  imports Main "HOL-Library.Sublist"
begin

section \<open>Python string primitives used by the proofreader\<close>

text \<open>
  Strings are \<open>char list\<close>. \<open>is_space\<close> is \<open>str.isspace\<close> on the code points below 256;
  \<open>strip\<close> is \<open>str.strip()\<close> without arguments, \<open>startswith\<close> is \<open>str.startswith\<close>,
  \<open>str_replace old new s\<close> is \<open>s.replace(old, new)\<close> (leftmost non-overlapping
  occurrences; an empty \<open>old\<close> is never passed by the program and leaves \<open>s\<close> as it is
  here), and \<open>str_nat\<close> is the decimal rendering of a non-negative integer in an f-string.
\<close>

definition is_space :: "char \<Rightarrow> bool" where
  "is_space c = (of_char c \<in> set [9, 10, 11, 12, 13, 28, 29, 30, 31, 32, 133, 160 :: nat])"

definition strip :: "string \<Rightarrow> string" where
  "strip s = rev (dropWhile is_space (rev (dropWhile is_space s)))"

definition startswith :: "string \<Rightarrow> string \<Rightarrow> bool" where
  "startswith s p = (take (length p) s = p)"

function str_replace :: "string \<Rightarrow> string \<Rightarrow> string \<Rightarrow> string" where
  "str_replace old new s =
     (if s = [] then []
      else if old \<noteq> [] \<and> take (length old) s = old
           then new @ str_replace old new (drop (length old) s)
      else hd s # str_replace old new (tl s))"
  by pat_completeness auto
termination
  by (relation "measure (\<lambda>(old, new, s). length s)") auto

declare str_replace.simps [simp del]

fun str_nat :: "nat \<Rightarrow> string" where
  "str_nat n =
     (if n < 10 then [''0123456789'' ! n]
      else str_nat (n div 10) @ [''0123456789'' ! (n mod 10)])"

declare str_nat.simps [simp del]

section \<open>Configuration (config.py)\<close>

text \<open>
  The two prompt strings are fixed in \<open>config.py\<close>. The model name, the token budget and
  the retry budget come from the environment (with defaults), so they are fields of a
  configuration record.
\<close>

definition nl :: string where
  "nl = [CHR 0x0A]"

definition dq :: string where
  "dq = [CHR 0x22]"

definition SYSTEM_PROMPT :: string where
  "SYSTEM_PROMPT =
     ''You are an expert copy-editor. You meticulously review text for grammatical errors, ''
   @ ''spelling mistakes, punctuation issues, clarity, conciseness, and overall readability. ''
   @ ''Return JSON only.''"

definition USER_PROMPT_TEMPLATE :: string where
  "USER_PROMPT_TEMPLATE =
     ''Please proofread the following text.'' @ nl
   @ ''Return a JSON object with the following three keys:'' @ nl @ nl
   @ dq @ ''original'' @ dq @ '': The verbatim input text you received.'' @ nl @ nl
   @ dq @ ''corrected'' @ dq @ '': The corrected version of the text. If no corrections are ''
   @ ''needed, this should be identical to the original.'' @ nl @ nl
   @ dq @ ''feedback'' @ dq @ '': A bulleted list (strings) of major issues fixed or ''
   @ ''suggestions for improvement. If no issues, provide an empty list or a single item like ''
   @ dq @ ''No major issues found.'' @ dq @ nl @ nl
   @ ''Original Text:'' @ nl @ nl
   @ ''{paragraph_text}''"

record config =
  OPENAI_MODEL :: string
  MAX_TOKENS_PER_API_REQUEST :: int
  MAX_RETRY_TIME_SECONDS :: nat
  INPUT_DOCX_PATH :: string

definition default_config :: config where
  "default_config =
     \<lparr>OPENAI_MODEL = ''gpt-4o-mini'', MAX_TOKENS_PER_API_REQUEST = 4000,
      MAX_RETRY_TIME_SECONDS = 60, INPUT_DOCX_PATH = ''my_draft.docx''\<rparr>"

section \<open>Errors\<close>

text \<open>
  Exceptions are values. The three transient classes are the ones listed in the
  \<open>backoff.on_exception\<close> decorator; \<open>OtherException\<close> stands for every other subclass of
  \<open>Exception\<close> that the remote call can raise. Each carries its message, \<open>str(e)\<close>.
\<close>

datatype py_exn =
    RateLimitError string
  | APIConnectionError string
  | APITimeoutError string
  | OtherException string
  | FileNotFoundError string
  | KeyError string
  | IndexError string
  | ValueError string

fun exn_str :: "py_exn \<Rightarrow> string" where
  "exn_str (RateLimitError m) = m"
| "exn_str (APIConnectionError m) = m"
| "exn_str (APITimeoutError m) = m"
| "exn_str (OtherException m) = m"
| "exn_str (FileNotFoundError m) = m"
| "exn_str (KeyError m) = m"
| "exn_str (IndexError m) = m"
| "exn_str (ValueError m) = m"

fun is_transient :: "py_exn \<Rightarrow> bool" where
  "is_transient (RateLimitError m) = True"
| "is_transient (APIConnectionError m) = True"
| "is_transient (APITimeoutError m) = True"
| "is_transient e = False"

section \<open>Loading paragraphs (load_paragraphs)\<close>

text \<open>
  The file system is a map from a path to the texts of the paragraphs of the document
  stored there (the docx reader is outside the program). A missing path raises
  \<open>FileNotFoundError\<close>. The comprehension
  \<^verbatim>\<open>[p.text.strip() for p in doc.paragraphs if p.text.strip()]\<close> is kept as a comprehension.
\<close>

definition load_paragraphs :: "(string \<rightharpoonup> string list) \<Rightarrow> string \<Rightarrow> py_exn + string list" where
  "load_paragraphs fs docx_path =
     (case fs docx_path of
        None \<Rightarrow> Inl (FileNotFoundError (''Input file '' @ [CHR 0x27] @ docx_path @ [CHR 0x27] @ '' not found.''))
      | Some doc_paragraphs \<Rightarrow> Inr [strip p. p \<leftarrow> doc_paragraphs, strip p \<noteq> []])"

section \<open>Segment preparation (prepare_segments_for_api)\<close>

text \<open>
  A segment is the dictionary \<^verbatim>\<open>{"id": i, "text": para_text, "is_long": b}\<close>. The tokenizer
  library is a parameter: \<open>encoding_for_model\<close> maps a model name to its encoder (\<open>None\<close>
  where tiktoken raises \<open>KeyError\<close>), and \<open>enc.encode\<close> maps a string to its token list
  or raises (\<open>Inl\<close>): with the default arguments used here it raises \<open>ValueError\<close> on a
  text that contains a special token. No call of \<open>encode\<close> is inside a \<open>try\<close>, so the
  first one that raises ends the function with that exception.

  The overhead is computed once, before the loop: the tokens of the template with its
  slot emptied, then those of the system prompt, plus 200. The loop follows
  \<open>enumerate(paragraphs)\<close>; its two branches append a segment that differs only in
  \<open>is_long\<close> (and in the printed warning, which is not modelled).
\<close>

record segment =
  seg_id :: nat
  seg_text :: string
  is_long :: bool

type_synonym encoding = "string \<Rightarrow> py_exn + nat list"

definition prompt_overhead :: "encoding \<Rightarrow> py_exn + int" where
  "prompt_overhead enc =
     (case enc (str_replace ''{paragraph_text}'' [] USER_PROMPT_TEMPLATE) of
        Inl e \<Rightarrow> Inl e
      | Inr template_tokens \<Rightarrow>
          (case enc SYSTEM_PROMPT of
             Inl e \<Rightarrow> Inl e
           | Inr system_tokens \<Rightarrow>
               Inr (int (length template_tokens) + int (length system_tokens) + 200)))"

fun prepare_loop ::
    "encoding \<Rightarrow> int \<Rightarrow> int \<Rightarrow> (nat \<times> string) list \<Rightarrow> segment list \<Rightarrow> py_exn + segment list" where
  "prepare_loop enc overhead max_tokens_for_request [] segments_to_process =
     Inr segments_to_process"
| "prepare_loop enc overhead max_tokens_for_request ((i, para_text) # rest) segments_to_process =
     (case enc para_text of
        Inl e \<Rightarrow> Inl e
      | Inr tokens \<Rightarrow>
          (let num_tokens = int (length tokens) in
           if num_tokens + overhead > max_tokens_for_request
           then prepare_loop enc overhead max_tokens_for_request rest
                  (segments_to_process @ [\<lparr>seg_id = i, seg_text = para_text, is_long = True\<rparr>])
           else prepare_loop enc overhead max_tokens_for_request rest
                  (segments_to_process @ [\<lparr>seg_id = i, seg_text = para_text, is_long = False\<rparr>])))"

definition prepare_segments_for_api ::
    "(string \<rightharpoonup> encoding) \<Rightarrow> string list \<Rightarrow> string \<Rightarrow> int \<Rightarrow> py_exn + segment list" where
  "prepare_segments_for_api encoding_for_model paragraphs model_name max_tokens_for_request =
     (case encoding_for_model model_name of
        None \<Rightarrow> Inl (KeyError model_name)
      | Some enc \<Rightarrow>
          (case prompt_overhead enc of
             Inl e \<Rightarrow> Inl e
           | Inr overhead \<Rightarrow>
               prepare_loop enc overhead max_tokens_for_request (enumerate 0 paragraphs) []))"

section \<open>The remote service and its replies\<close>

text \<open>
  A parsed JSON value, as \<open>json.loads\<close> returns it. An object is the association list
  of a Python dict: keys are looked up with \<open>map_of\<close>.
\<close>

datatype json =
    JNull
  | JBool bool
  | JNum int
  | JStr string
  | JArr "json list"
  | JObj "(string \<times> json) list"

text \<open>
  What one execution of the \<open>try\<close> block of \<open>get_proofread_data\<close> meets:
  the request (or reading the reply out of the response) raises an exception,
  \<open>json.loads\<close> raises \<open>JSONDecodeError\<close> with a message, or \<open>json.loads\<close> returns a
  value. The service is a function of the number of calls made so far and of the
  user message; the state threaded through the pipeline is that number of calls.
\<close>

datatype api_outcome =
    Fails py_exn
  | BadJSON string
  | Reply json

type_synonym service = "nat \<Rightarrow> string \<Rightarrow> api_outcome"

type_synonym world = nat

section \<open>The remote call (get_proofread_data)\<close>

definition degraded_reply :: "string \<Rightarrow> string \<Rightarrow> json" where
  "degraded_reply paragraph_text diagnostic =
     JObj [(''original'', JStr paragraph_text), (''corrected'', JStr paragraph_text),
           (''feedback'', JArr [JStr diagnostic])]"

text \<open>
  The body of \<open>get_proofread_data\<close>, without its decorator. \<open>str.format\<close> fills the one
  slot of the template. The result is \<open>Inl e\<close> where the body raises \<open>e\<close>: both handlers
  return a dictionary, and \<open>except Exception\<close> takes every exception that
  \<open>except json.JSONDecodeError\<close> has left.
\<close>

definition get_proofread_data_body :: "service \<Rightarrow> string \<Rightarrow> world \<Rightarrow> (py_exn + json) \<times> world" where
  "get_proofread_data_body svc paragraph_text w =
     (let user_content = str_replace ''{paragraph_text}'' paragraph_text USER_PROMPT_TEMPLATE in
      case svc w user_content of
        Reply v \<Rightarrow> (Inr v, Suc w)
      | BadJSON e \<Rightarrow> (Inr (degraded_reply paragraph_text (''JSON Error: '' @ e)), Suc w)
      | Fails e \<Rightarrow> (Inr (degraded_reply paragraph_text (''API Error: '' @ exn_str e)), Suc w))"

text \<open>
  The decorator \<open>backoff.on_exception(backoff.expo, (RateLimitError, APIConnectionError,
  APITimeoutError), max_time=...)\<close>: call the target; if it raises one of the listed
  exceptions and the elapsed time is below \<open>max_time\<close>, sleep and call again; if it raises
  anything else, or the time is up, the exception propagates; if it returns, return that.
  The sleep after the \<open>n\<close>-th failure is \<open>2 ^ n\<close> seconds, capped by the time left (the
  library's random jitter is left out), and only sleeping advances the elapsed time.
\<close>

function on_exception ::
    "nat \<Rightarrow> (world \<Rightarrow> (py_exn + 'a) \<times> world) \<Rightarrow> nat \<Rightarrow> nat \<Rightarrow> world \<Rightarrow> (py_exn + 'a) \<times> world" where
  "on_exception max_time target tries elapsed w =
     (case target w of
        (Inr ret, w') \<Rightarrow> (Inr ret, w')
      | (Inl e, w') \<Rightarrow>
          if \<not> is_transient e \<or> max_time \<le> elapsed then (Inl e, w')
          else on_exception max_time target (Suc tries)
                 (elapsed + min (2 ^ tries) (max_time - elapsed)) w')"
  by pat_completeness auto
termination
  by (relation "measure (\<lambda>(max_time, target, tries, elapsed, w). max_time - elapsed)")
     (auto simp: min_def diff_less_mono2)

declare on_exception.simps [simp del]

definition get_proofread_data :: "service \<Rightarrow> nat \<Rightarrow> string \<Rightarrow> world \<Rightarrow> (py_exn + json) \<times> world" where
  "get_proofread_data svc max_time paragraph_text w =
     on_exception max_time (get_proofread_data_body svc paragraph_text) 0 0 w"

section \<open>Validation (Edit.model_validate)\<close>

text \<open>
  \<open>Edit\<close> is the pydantic model with fields \<open>original: str\<close>, \<open>corrected: str\<close> and
  \<open>feedback: List[str]\<close>. Validation of a parsed JSON value succeeds exactly on an object
  whose three fields are present with these types (other keys are ignored); otherwise
  it raises \<open>ValidationError\<close>, here \<open>Inl\<close> of a message that lists the offending fields.
\<close>

record Edit =
  original :: string
  corrected :: string
  feedback :: "string list"

fun str_field :: "(string \<times> json) list \<Rightarrow> string \<Rightarrow> string + string" where
  "str_field obj name =
     (case map_of obj name of
        None \<Rightarrow> Inl (name @ '': Field required'')
      | Some (JStr s) \<Rightarrow> Inr s
      | Some _ \<Rightarrow> Inl (name @ '': Input should be a valid string''))"

fun str_items :: "json list \<Rightarrow> string list option" where
  "str_items [] = Some []"
| "str_items (JStr s # vs) = (case str_items vs of None \<Rightarrow> None | Some ss \<Rightarrow> Some (s # ss))"
| "str_items (v # vs) = None"

fun str_list_field :: "(string \<times> json) list \<Rightarrow> string \<Rightarrow> string + string list" where
  "str_list_field obj name =
     (case map_of obj name of
        None \<Rightarrow> Inl (name @ '': Field required'')
      | Some (JArr vs) \<Rightarrow>
          (case str_items vs of
             None \<Rightarrow> Inl (name @ '': Input should be a valid string'')
           | Some ss \<Rightarrow> Inr ss)
      | Some _ \<Rightarrow> Inl (name @ '': Input should be a valid list''))"

fun errors_of :: "string + 'a \<Rightarrow> string list" where
  "errors_of (Inl m) = [m]"
| "errors_of (Inr v) = []"

fun model_validate :: "json \<Rightarrow> string + Edit" where
  "model_validate (JObj obj) =
     (case (str_field obj ''original'', str_field obj ''corrected'',
            str_list_field obj ''feedback'') of
        (Inr o', Inr c, Inr f) \<Rightarrow> Inr \<lparr>original = o', corrected = c, feedback = f\<rparr>
      | (ro, rc, rf) \<Rightarrow>
          Inl (''validation errors for Edit'' @
               concat (map (\<lambda>m. nl @ m) (errors_of ro @ errors_of rc @ errors_of rf))))"
| "model_validate v = Inl (''validation error for Edit'' @ nl @
                          ''Input should be a valid dictionary or instance of Edit'')"

section \<open>The orchestrator (process_segments)\<close>

text \<open>
  One iteration of the loop of \<open>process_segments\<close>: the \<open>try\<close> block calls the client and
  validates; \<open>except ValidationError\<close> and \<open>except Exception\<close> each build a record from
  the local paragraph text. The value of the iteration is the record appended to
  \<open>results\<close>.
\<close>

definition degraded :: "string \<Rightarrow> string \<Rightarrow> Edit" where
  "degraded paragraph_text diagnostic =
     \<lparr>original = paragraph_text, corrected = paragraph_text, feedback = [diagnostic]\<rparr>"

definition process_segment :: "service \<Rightarrow> nat \<Rightarrow> segment \<Rightarrow> world \<Rightarrow> Edit \<times> world" where
  "process_segment svc max_time segment_data w =
     (let paragraph_text = seg_text segment_data in
      case get_proofread_data svc max_time paragraph_text w of
        (Inl e, w') \<Rightarrow> (degraded paragraph_text (''Processing Error: '' @ exn_str e), w')
      | (Inr raw_json_response, w') \<Rightarrow>
          (case model_validate raw_json_response of
             Inl msg \<Rightarrow> (degraded paragraph_text (''Validation Error: '' @ msg), w')
           | Inr validated_data \<Rightarrow> (validated_data, w')))"

fun process_loop :: "service \<Rightarrow> nat \<Rightarrow> segment list \<Rightarrow> Edit list \<Rightarrow> world \<Rightarrow> Edit list \<times> world" where
  "process_loop svc max_time [] results w = (results, w)"
| "process_loop svc max_time (segment_data # rest) results w =
     (case process_segment svc max_time segment_data w of
        (r, w') \<Rightarrow> process_loop svc max_time rest (results @ [r]) w')"

definition process_segments :: "service \<Rightarrow> nat \<Rightarrow> segment list \<Rightarrow> world \<Rightarrow> Edit list \<times> world" where
  "process_segments svc max_time segments_to_process w =
     process_loop svc max_time segments_to_process [] w"

section \<open>The report (create_output_document)\<close>

text \<open>
  The report is the list of blocks added to the output document, in order: a heading
  with its level, a paragraph with its text, optional style and highlight, or the
  summary paragraph made of runs (text and bold flag). Saving the file is not modelled
  (a failure to save is caught and printed).

  A paragraph added with an empty text has no run, so \<open>corrected_para.runs[0]\<close> raises
  \<open>IndexError\<close> when the corrected text is empty and differs from the original; the
  exception leaves \<open>create_output_document\<close>.
\<close>

datatype block =
    Heading string nat
  | Para string "string option" bool
  | RunsPara "(string \<times> bool) list"

definition total_paragraphs :: "Edit list \<Rightarrow> nat" where
  "total_paragraphs proofread_results = length proofread_results"

definition corrected_paragraphs :: "Edit list \<Rightarrow> nat" where
  "corrected_paragraphs proofread_results =
     sum_list [1. edit \<leftarrow> proofread_results, original edit \<noteq> corrected edit]"

definition clean_item :: "string \<Rightarrow> string" where
  "clean_item item = (if startswith item ''- '' then strip (drop 2 item) else item)"

definition feedback_blocks :: "string list \<Rightarrow> block list" where
  "feedback_blocks fb =
     (if fb \<noteq> [] then
        (let feedback_items = [strip item. item \<leftarrow> fb, strip item \<noteq> []] in
         if feedback_items \<noteq> [] then
           concat (map (\<lambda>item. if clean_item item \<noteq> []
                                then [Para (clean_item item) (Some ''List Bullet'') False]
                                else [])
                       feedback_items)
         else [Para ''No specific feedback provided.'' None False])
      else [Para ''No feedback provided.'' None False])"

definition item_blocks :: "nat \<Rightarrow> Edit \<Rightarrow> py_exn + block list" where
  "item_blocks i edit_item =
     (if original edit_item \<noteq> corrected edit_item \<and> corrected edit_item = []
      then Inl (IndexError ''list index out of range'')
      else Inr ([Heading (''Paragraph '' @ str_nat (i + 1) @ '': Original'') 2,
                 Para (original edit_item) (Some ''Quote'') False,
                 Heading (''Paragraph '' @ str_nat (i + 1) @ '': Corrected'') 2,
                 Para (corrected edit_item) None (original edit_item \<noteq> corrected edit_item),
                 Heading (''Paragraph '' @ str_nat (i + 1) @ '': Feedback'') 2]
                @ feedback_blocks (feedback edit_item)
                @ [Para (replicate 30 (CHR ''-'')) None False]))"

fun render_items :: "(nat \<times> Edit) list \<Rightarrow> py_exn + block list" where
  "render_items [] = Inr []"
| "render_items ((i, edit_item) # rest) =
     (case item_blocks i edit_item of
        Inl e \<Rightarrow> Inl e
      | Inr bs \<Rightarrow> (case render_items rest of Inl e \<Rightarrow> Inl e | Inr bs' \<Rightarrow> Inr (bs @ bs')))"

definition summary_block :: "Edit list \<Rightarrow> block" where
  "summary_block proofread_results =
     RunsPara [(''Summary: '', True),
               (''Processed '' @ str_nat (total_paragraphs proofread_results)
                @ '' paragraphs. '' @ str_nat (corrected_paragraphs proofread_results)
                @ '' paragraphs had corrections.'', False)]"

definition create_output_document :: "Edit list \<Rightarrow> py_exn + block list" where
  "create_output_document proofread_results =
     (case render_items (enumerate 0 proofread_results) of
        Inl e \<Rightarrow> Inl e
      | Inr body \<Rightarrow>
          Inr ([Heading ''AI Proofreading Report'' 0,
                summary_block proofread_results,
                Para (replicate 50 (CHR ''='')) None False] @ body))"

section \<open>The script (main)\<close>

text \<open>
  \<open>main\<close> loads, prepares, processes and renders; it stops without output (\<open>None\<close>) when
  there is no paragraph or no segment, and re-raises any exception.
\<close>

definition main ::
    "config \<Rightarrow> (string \<rightharpoonup> string list) \<Rightarrow> (string \<rightharpoonup> encoding) \<Rightarrow> service
      \<Rightarrow> py_exn + block list option" where
  "main cfg fs encoding_for_model svc =
     (case load_paragraphs fs (INPUT_DOCX_PATH cfg) of
        Inl e \<Rightarrow> Inl e
      | Inr raw_paragraphs \<Rightarrow>
          if raw_paragraphs = [] then Inr None
          else (case prepare_segments_for_api encoding_for_model raw_paragraphs
                       (OPENAI_MODEL cfg) (MAX_TOKENS_PER_API_REQUEST cfg) of
                  Inl e \<Rightarrow> Inl e
                | Inr segments_to_process \<Rightarrow>
                    if segments_to_process = [] then Inr None
                    else (case create_output_document
                                 (fst (process_segments svc (MAX_RETRY_TIME_SECONDS cfg)
                                         segments_to_process 0)) of
                            Inl e \<Rightarrow> Inl e
                          | Inr doc \<Rightarrow> Inr (Some doc))))"

section \<open>Concrete inputs\<close>

text \<open>
  A tokenizer with one token per character, which rejects a text that contains the
  special token \<open><|endoftext|>\<close> as tiktoken does, registered for the default model;
  the services and documents of the scenarios evaluated below.
\<close>

fun contains :: "string \<Rightarrow> string \<Rightarrow> bool" where
  "contains [] sub = (sub = [])"
| "contains (c # cs) sub = (take (length sub) (c # cs) = sub \<or> contains cs sub)"

definition char_enc :: encoding where
  "char_enc s =
     (if contains s ''<|endoftext|>''
      then Inl (ValueError ''Encountered text corresponding to disallowed special token'')
      else Inr (map of_char s))"

definition toy_tiktoken :: "string \<rightharpoonup> encoding" where
  "toy_tiktoken = [''gpt-4o-mini'' \<mapsto> char_enc]"

definition reply_obj :: "string \<Rightarrow> string \<Rightarrow> string list \<Rightarrow> json" where
  "reply_obj o' c f =
     JObj [(''original'', JStr o'), (''corrected'', JStr c), (''feedback'', JArr (map JStr f))]"

definition scenario_service :: service where
  "scenario_service n user_content =
     (if n = 0
      then Reply (reply_obj ''The frist paragraph.'' ''The first paragraph.''
                    [''Fixed spelling of '' @ [CHR 0x27] @ ''first'' @ [CHR 0x27] @ ''.''])
      else Reply (reply_obj ''Alredy correct.'' ''Alredy correct.'' []))"

definition scenario_segments :: "segment list" where
  "scenario_segments =
     [\<lparr>seg_id = 0, seg_text = ''The frist paragraph.'', is_long = False\<rparr>,
      \<lparr>seg_id = 1, seg_text = ''Alredy correct.'', is_long = False\<rparr>]"

definition scenario_fs :: "string \<rightharpoonup> string list" where
  "scenario_fs =
     [''my_draft.docx'' \<mapsto> [''  The frist paragraph. '', ''   '', ''Alredy correct.'', []]]"

definition paraphrasing_service :: service where
  "paraphrasing_service n user_content =
     Reply (reply_obj ''Teh cat sat'' ''The cat sat.'' [''Fixed spelling.''])"

definition flaky_service :: service where
  "flaky_service n user_content =
     (if n < 3 then Fails (APIConnectionError ''Connection error.'')
      else Reply (reply_obj ''Teh cat  sat'' ''The cat sat.'' [''Fixed spelling.'']))"

definition down_service :: service where
  "down_service n user_content = Fails (APITimeoutError ''Request timed out.'')"

definition garbled_service :: service where
  "garbled_service n user_content = BadJSON ''Expecting value: line 1 column 1 (char 0)''"

definition no_feedback_service :: service where
  "no_feedback_service n user_content =
     Reply (JObj [(''original'', JStr ''Teh cat  sat''), (''corrected'', JStr ''The cat sat.'')])"

definition cat_segment :: segment where
  "cat_segment = \<lparr>seg_id = 0, seg_text = ''Teh cat  sat'', is_long = False\<rparr>"

definition bulleted_results :: "Edit list" where
  "bulleted_results =
     [\<lparr>original = ''Teh cat'', corrected = ''The cat'',
       feedback = [''  - Fixed spelling. '', ''   '', ''Consider a comma'', ''- - nested'']\<rparr>]"

section \<open>Facts about the string primitives\<close>

lemma dropWhile_snoc_keep:
  "\<not> P x \<Longrightarrow> dropWhile P (xs @ [x]) = dropWhile P xs @ [x]"
  by (induction xs) auto

lemma dropWhile_rev_dropWhile:
  "dropWhile P (rev (dropWhile P (rev (dropWhile P s)))) = rev (dropWhile P (rev (dropWhile P s)))"
proof (cases "dropWhile P s")
  case Nil
  show ?thesis unfolding Nil by simp
next
  case (Cons x a)
  then have nx: "\<not> P x"
    using hd_dropWhile [of P s] by auto
  have "rev (dropWhile P (rev (x # a))) = x # rev (dropWhile P (rev a))"
    using nx by (simp add: dropWhile_snoc_keep)
  then show ?thesis
    using Cons nx by simp
qed

lemma strip_strip: "strip (strip s) = strip s"
  unfolding strip_def
  by (simp only: dropWhile_rev_dropWhile rev_rev_ident dropWhile_idem)

lemma strip_empty_iff: "strip s = [] \<longleftrightarrow> (\<forall>c \<in> set s. is_space c)"
proof
  assume "strip s = []"
  then have all: "\<forall>c \<in> set (dropWhile is_space s). is_space c"
    by (simp add: strip_def dropWhile_eq_Nil_conv)
  have "dropWhile is_space s = []"
  proof (rule ccontr)
    assume ne: "dropWhile is_space s \<noteq> []"
    then have "\<not> is_space (hd (dropWhile is_space s))" by (rule hd_dropWhile)
    moreover have "hd (dropWhile is_space s) \<in> set (dropWhile is_space s)"
      using ne by simp
    ultimately show False using all by blast
  qed
  then show "\<forall>c \<in> set s. is_space c"
    by (simp add: dropWhile_eq_Nil_conv)
next
  assume "\<forall>c \<in> set s. is_space c"
  then have "dropWhile is_space s = []" by (simp add: dropWhile_eq_Nil_conv)
  then have "strip s = rev (dropWhile is_space (rev []))" by (simp only: strip_def)
  then show "strip s = []" by simp
qed

lemma strip_ends:
  assumes "strip s \<noteq> []"
  shows "\<not> is_space (hd (strip s)) \<and> \<not> is_space (last (strip s))"
proof -
  let ?a = "dropWhile is_space s"
  let ?b = "dropWhile is_space (rev ?a)"
  have b: "?b \<noteq> []" using assms by (simp add: strip_def)
  then have l: "\<not> is_space (hd ?b)" by (rule hd_dropWhile)
  have "last (strip s) = hd ?b" using b by (simp add: strip_def last_rev)
  moreover have "\<not> is_space (hd (strip s))"
  proof -
    have "dropWhile is_space (strip s) = strip s"
      unfolding strip_def by (rule dropWhile_rev_dropWhile)
    then show ?thesis using assms hd_dropWhile [of is_space "strip s"] by simp
  qed
  ultimately show ?thesis using l by simp
qed

lemma comprehension_filter_map:
  "[f p. p \<leftarrow> xs, f p \<noteq> []] = filter (\<lambda>s. s \<noteq> []) (map f xs)"
  by (induction xs) auto

section \<open>The loader\<close>

text \<open>
  Claim C10. For every input document, every paragraph string that \<open>load_paragraphs\<close>
  returns is non-empty and equal to its own whitespace-trim; the paragraphs that are
  empty or whitespace-only are dropped, and the others keep their relative order: the
  result is the list of trimmed texts with the empty ones filtered out, a subsequence
  of the trimmed texts.
\<close>

theorem load_paragraphs_trimmed_in_order:
  assumes "fs docx_path = Some doc" and "load_paragraphs fs docx_path = Inr ps"
  shows "(\<forall>p \<in> set ps. p \<noteq> [] \<and> strip p = p)
       \<and> ps = filter (\<lambda>s. s \<noteq> []) (map strip doc)
       \<and> subseq ps (map strip doc)
       \<and> (\<forall>d \<in> set doc. strip d \<in> set ps \<longleftrightarrow> \<not> (\<forall>c \<in> set d. is_space c))"
proof -
  have ps: "ps = filter (\<lambda>s. s \<noteq> []) (map strip doc)"
    using assms by (simp add: load_paragraphs_def comprehension_filter_map)
  have trimmed: "\<forall>p \<in> set ps. p \<noteq> [] \<and> strip p = p"
    unfolding ps by (auto simp: strip_strip)
  have order: "subseq ps (map strip doc)"
    unfolding ps by (rule subseq_filter_left)
  have kept: "\<forall>d \<in> set doc. strip d \<in> set ps \<longleftrightarrow> \<not> (\<forall>c \<in> set d. is_space c)"
    unfolding ps using strip_empty_iff by auto
  from trimmed ps order kept show ?thesis by blast
qed

theorem load_paragraphs_trimmed_in_order_witness:
  "scenario_fs ''my_draft.docx''
     = Some [''  The frist paragraph. '', ''   '', ''Alredy correct.'', []]
   \<and> load_paragraphs scenario_fs ''my_draft.docx''
     = Inr [''The frist paragraph.'', ''Alredy correct.'']
   \<and> strip ''The frist paragraph.'' = ''The frist paragraph.''
   \<and> strip ''Alredy correct.'' = ''Alredy correct.''
   \<and> subseq [''The frist paragraph.'', ''Alredy correct.'']
        (map strip [''  The frist paragraph. '', ''   '', ''Alredy correct.'', []])"
proof -
  have f: "scenario_fs ''my_draft.docx''
     = Some [''  The frist paragraph. '', ''   '', ''Alredy correct.'', []]"
    by (simp add: scenario_fs_def)
  have l: "load_paragraphs scenario_fs ''my_draft.docx''
     = Inr [''The frist paragraph.'', ''Alredy correct.'']"
    by code_simp
  from load_paragraphs_trimmed_in_order [OF f l] f l show ?thesis by simp
qed

section \<open>The client\<close>

text \<open>
  The body of \<open>get_proofread_data\<close> returns on every outcome of the remote call, so the
  decorator around it sees no exception and calls the body exactly once. The decorator
  itself does retry a target that raises a transient exception, and gives up on any
  other exception or when the time is up.
\<close>

lemma body_never_raises: "\<exists>v. get_proofread_data_body svc t w = (Inr v, Suc w)"
  by (simp add: get_proofread_data_body_def split: api_outcome.split)

lemma on_exception_returns:
  "target w = (Inr v, w') \<Longrightarrow> on_exception mt target tries el w = (Inr v, w')"
  by (subst on_exception.simps) simp

lemma on_exception_retries:
  "target w = (Inl e, w') \<Longrightarrow> is_transient e \<Longrightarrow> el < mt \<Longrightarrow>
   on_exception mt target tries el w
     = on_exception mt target (Suc tries) (el + min (2 ^ tries) (mt - el)) w'"
  by (subst on_exception.simps) simp

lemma on_exception_gives_up:
  "target w = (Inl e, w') \<Longrightarrow> \<not> is_transient e \<or> mt \<le> el \<Longrightarrow>
   on_exception mt target tries el w = (Inl e, w')"
  by (subst on_exception.simps) auto

lemma decorator_never_retries:
  "get_proofread_data svc mt t w = get_proofread_data_body svc t w"
proof -
  obtain v where "get_proofread_data_body svc t w = (Inr v, Suc w)"
    using body_never_raises by blast
  then show ?thesis
    unfolding get_proofread_data_def by (simp only: on_exception_returns)
qed

lemma model_validate_degraded_reply:
  "model_validate (degraded_reply t d) = Inr (degraded t d)"
  by (simp add: degraded_reply_def degraded_def)

lemma process_segment_cases:
  "process_segment svc mt seg w =
     (case svc w (str_replace ''{paragraph_text}'' (seg_text seg) USER_PROMPT_TEMPLATE) of
        Fails e \<Rightarrow> (degraded (seg_text seg) (''API Error: '' @ exn_str e), Suc w)
      | BadJSON m \<Rightarrow> (degraded (seg_text seg) (''JSON Error: '' @ m), Suc w)
      | Reply raw \<Rightarrow>
          (case model_validate raw of
             Inl msg \<Rightarrow> (degraded (seg_text seg) (''Validation Error: '' @ msg), Suc w)
           | Inr e \<Rightarrow> (e, Suc w)))"
  unfolding process_segment_def decorator_never_retries get_proofread_data_body_def
  by (simp add: model_validate_degraded_reply split: api_outcome.split)

text \<open>
  Claim C6. When the reply of the remote service does not parse as JSON, the client makes
  no further call (the number of calls grows by one) and returns, instead of raising,
  the reply whose \<open>original\<close> and \<open>corrected\<close> are the input text and whose \<open>feedback\<close> is
  the single diagnostic \<open>JSON Error: ...\<close> naming the failure.
\<close>

theorem json_failure_degraded_without_retry:
  assumes "svc w (str_replace ''{paragraph_text}'' paragraph_text USER_PROMPT_TEMPLATE) = BadJSON err"
  shows "get_proofread_data svc max_time paragraph_text w
         = (Inr (JObj [(''original'', JStr paragraph_text), (''corrected'', JStr paragraph_text),
                       (''feedback'', JArr [JStr (''JSON Error: '' @ err)])]),
            Suc w)"
  using assms unfolding decorator_never_retries
  by (simp add: get_proofread_data_body_def degraded_reply_def)

theorem json_failure_degraded_without_retry_witness:
  "garbled_service 0 (str_replace ''{paragraph_text}'' ''Teh cat  sat'' USER_PROMPT_TEMPLATE)
     = BadJSON ''Expecting value: line 1 column 1 (char 0)''
   \<and> get_proofread_data garbled_service 60 ''Teh cat  sat'' 0
     = (Inr (JObj [(''original'', JStr ''Teh cat  sat''), (''corrected'', JStr ''Teh cat  sat''),
                   (''feedback'',
                    JArr [JStr ''JSON Error: Expecting value: line 1 column 1 (char 0)''])]),
        Suc 0)"
proof -
  have h: "garbled_service 0 (str_replace ''{paragraph_text}'' ''Teh cat  sat'' USER_PROMPT_TEMPLATE)
     = BadJSON ''Expecting value: line 1 column 1 (char 0)''"
    by (simp add: garbled_service_def)
  from json_failure_degraded_without_retry
         [where svc = garbled_service and w = 0 and paragraph_text = "''Teh cat  sat''"
            and max_time = 60, OF h] h
  show ?thesis by simp
qed

section \<open>Validation and the orchestrator\<close>

text \<open>
  Validation succeeds exactly on an object whose \<open>original\<close> and \<open>corrected\<close> are
  strings and whose \<open>feedback\<close> is a list of strings; in particular a reply without
  \<open>feedback\<close> fails.
\<close>

lemma missing_field_fails:
  "map_of obj ''feedback'' = None \<Longrightarrow> \<exists>msg. model_validate (JObj obj) = Inl msg"
  by (auto split: sum.splits prod.splits option.splits json.splits)

lemma map_JStr_eq: "map JStr xs = map JStr ys \<longleftrightarrow> xs = ys"
  by (rule inj_map_eq_map) (simp add: inj_def)

lemma str_items_map_JStr: "str_items (map JStr ss) = Some ss"
  by (induction ss) auto

lemma str_items_SomeD: "str_items vs = Some ss \<Longrightarrow> vs = map JStr ss"
  by (induction vs arbitrary: ss rule: str_items.induct) (auto split: option.splits)

lemma str_items_Some: "str_items vs = Some ss \<longleftrightarrow> vs = map JStr ss"
  using str_items_map_JStr str_items_SomeD by blast

lemma model_validate_ok_iff:
  "model_validate raw = Inr e \<longleftrightarrow>
     (\<exists>obj. raw = JObj obj
        \<and> map_of obj ''original'' = Some (JStr (original e))
        \<and> map_of obj ''corrected'' = Some (JStr (corrected e))
        \<and> map_of obj ''feedback'' = Some (JArr (map JStr (feedback e))))"
proof (cases raw)
  case (JObj obj)
  show ?thesis
    unfolding JObj
    by (cases e)
       (auto simp: str_items_Some str_items_map_JStr map_JStr_eq split: sum.splits option.splits json.splits)
qed simp_all


text \<open>
  Claim C7. When the raw reply of a unit fails schema validation, the pipeline does not
  crash: the unit's record has the input text as \<open>original\<close> and as \<open>corrected\<close>, and a
  single feedback entry that starts with \<open>Validation Error: \<close>. The witness is the
  reply that lacks \<open>feedback\<close>.
\<close>

theorem validation_failure_degraded:
  assumes "svc w (str_replace ''{paragraph_text}'' (seg_text seg) USER_PROMPT_TEMPLATE) = Reply raw"
      and "model_validate raw = Inl msg"
  shows "process_segment svc max_time seg w
         = (\<lparr>original = seg_text seg, corrected = seg_text seg,
             feedback = [''Validation Error: '' @ msg]\<rparr>, Suc w)"
  using assms by (simp add: process_segment_cases degraded_def)

theorem validation_failure_degraded_witness:
  "no_feedback_service 0 (str_replace ''{paragraph_text}'' (seg_text cat_segment) USER_PROMPT_TEMPLATE)
     = Reply (JObj [(''original'', JStr ''Teh cat  sat''), (''corrected'', JStr ''The cat sat.'')])
   \<and> model_validate (JObj [(''original'', JStr ''Teh cat  sat''), (''corrected'', JStr ''The cat sat.'')])
     = Inl (''validation errors for Edit'' @ nl @ ''feedback: Field required'')
   \<and> process_segment no_feedback_service 60 cat_segment 0
     = (\<lparr>original = ''Teh cat  sat'', corrected = ''Teh cat  sat'',
         feedback = [''Validation Error: validation errors for Edit'' @ nl
                     @ ''feedback: Field required'']\<rparr>, Suc 0)"
proof -
  have r: "no_feedback_service 0 (str_replace ''{paragraph_text}'' (seg_text cat_segment) USER_PROMPT_TEMPLATE)
     = Reply (JObj [(''original'', JStr ''Teh cat  sat''), (''corrected'', JStr ''The cat sat.'')])"
    by (simp add: no_feedback_service_def)
  have v: "model_validate (JObj [(''original'', JStr ''Teh cat  sat''), (''corrected'', JStr ''The cat sat.'')])
     = Inl (''validation errors for Edit'' @ nl @ ''feedback: Field required'')"
    by simp
  from validation_failure_degraded
         [where svc = no_feedback_service and w = 0 and seg = cat_segment and max_time = 60,
          OF r v] r v
  show ?thesis by (simp add: cat_segment_def)
qed

text \<open>
  Claim C1, as stated, fails: \<open>process_segments\<close> appends the validated reply as it is,
  so a reply that validates keeps the service's own \<open>original\<close>. Here the service
  echoes the paragraph with one of its two spaces removed, and that echo is stored.
\<close>

theorem original_is_echo_counterexample:
  "original (fst (process_segment paraphrasing_service 60 cat_segment 0)) = ''Teh cat sat''
   \<and> seg_text cat_segment = ''Teh cat  sat''
   \<and> original (fst (process_segment paraphrasing_service 60 cat_segment 0)) \<noteq> seg_text cat_segment"
  by (simp add: process_segment_cases paraphrasing_service_def cat_segment_def reply_obj_def)

text \<open>
  Claim C1, amended. The stored \<open>original\<close> is the local paragraph text whenever the
  unit is degraded (the call failed, the reply did not parse, or it did not validate);
  when the reply validates, the stored \<open>original\<close> is the \<open>original\<close> field of the
  reply, which nothing overwrites.
\<close>

theorem original_local_unless_validated_echo:
  "original (fst (process_segment svc max_time seg w))
     = (case svc w (str_replace ''{paragraph_text}'' (seg_text seg) USER_PROMPT_TEMPLATE) of
          Reply raw \<Rightarrow> (case model_validate raw of
                          Inr e \<Rightarrow> original e
                        | Inl msg \<Rightarrow> seg_text seg)
        | BadJSON m \<Rightarrow> seg_text seg
        | Fails e \<Rightarrow> seg_text seg)"
  by (simp add: process_segment_cases degraded_def split: api_outcome.split sum.split)

theorem original_local_unless_validated_echo_witness:
  "original (fst (process_segment no_feedback_service 60 cat_segment 0)) = seg_text cat_segment
   \<and> original (fst (process_segment paraphrasing_service 60 cat_segment 0)) = ''Teh cat sat''"
  using original_local_unless_validated_echo [of no_feedback_service 60 cat_segment 0]
        original_local_unless_validated_echo [of paraphrasing_service 60 cat_segment 0]
  by (simp add: no_feedback_service_def paraphrasing_service_def reply_obj_def)

text \<open>
  Claim C2 (the code departs from it). The service raises a connection failure on its
  first three calls and answers on the fourth. The handler \<open>except Exception\<close> inside the
  decorated function takes the first failure, so the decorator never retries: after a
  single call the unit's record is the degraded one, with \<open>API Error: ...\<close> as feedback.
\<close>

theorem flaky_connection_not_retried:
  "process_segment flaky_service 60 cat_segment 0
     = (\<lparr>original = ''Teh cat  sat'', corrected = ''Teh cat  sat'',
         feedback = [''API Error: Connection error.'']\<rparr>, 1)"
  by (simp add: process_segment_cases flaky_service_def cat_segment_def degraded_def)

text \<open>
  Claim C4 (the code departs from it). When every call times out, the client returns the
  default reply after one call, whatever the retry budget; the orchestrator sees no
  error, and the record's feedback is \<open>API Error: ...\<close>, which does not mention any
  retry. The record does have \<open>corrected\<close> equal to \<open>original\<close>.
\<close>

theorem transient_failure_defaulted_at_client:
  "get_proofread_data down_service max_time paragraph_text w
     = (Inr (JObj [(''original'', JStr paragraph_text), (''corrected'', JStr paragraph_text),
                   (''feedback'', JArr [JStr ''API Error: Request timed out.''])]), Suc w)
   \<and> process_segment down_service max_time seg w
     = (\<lparr>original = seg_text seg, corrected = seg_text seg,
         feedback = [''API Error: Request timed out.'']\<rparr>, Suc w)"
  by (simp add: process_segment_cases decorator_never_retries get_proofread_data_body_def
        down_service_def degraded_def degraded_reply_def)

section \<open>The segmenter\<close>

text \<open>
  The template ends with its one slot, so the template rendered with an empty slot is
  the template without those last characters.
\<close>

lemma template_with_empty_slot:
  "USER_PROMPT_TEMPLATE
     = str_replace ''{paragraph_text}'' [] USER_PROMPT_TEMPLATE @ ''{paragraph_text}''"
  by code_simp

text \<open>
  The tokenizer of the examples encodes every text without the character \<open><\<close>; the
  overhead it gives is 454 + 187 + 200.
\<close>

lemma contains_first_char: "contains s (c # sub) \<Longrightarrow> c \<in> set s"
  by (induction s) auto

lemma char_enc_without_marker:
  "CHR ''<'' \<notin> set s \<Longrightarrow> char_enc s = Inr (map of_char s)"
  using contains_first_char [of s "CHR ''<''" "''|endoftext|>''"]
  by (auto simp: char_enc_def)

lemma toy_overhead: "prompt_overhead char_enc = Inr 841"
proof -
  let ?t = "str_replace ''{paragraph_text}'' [] USER_PROMPT_TEMPLATE"
  have full: "CHR ''<'' \<notin> set USER_PROMPT_TEMPLATE" "length USER_PROMPT_TEMPLATE = 470"
    by (simp_all add: USER_PROMPT_TEMPLATE_def nl_def dq_def)
  have "set USER_PROMPT_TEMPLATE = set (?t @ ''{paragraph_text}'')"
    using template_with_empty_slot by (rule arg_cong)
  then have "set ?t \<subseteq> set USER_PROMPT_TEMPLATE"
    by (simp only: set_append) blast
  then have t: "char_enc ?t = Inr (map of_char ?t)"
    using full(1) by (intro char_enc_without_marker) blast
  have "length (?t @ ''{paragraph_text}'') = 470"
    using full(2) by (simp only: template_with_empty_slot [symmetric])
  then have lt: "length ?t = 454"
    by simp
  have sys: "CHR ''<'' \<notin> set SYSTEM_PROMPT" "length SYSTEM_PROMPT = 187"
    by (simp_all add: SYSTEM_PROMPT_def)
  then have y: "char_enc SYSTEM_PROMPT = Inr (map of_char SYSTEM_PROMPT)"
    by (intro char_enc_without_marker)
  show ?thesis
    by (simp add: prompt_overhead_def t y lt sys(2))
qed

text \<open>
  The loop appends one segment per paragraph as long as \<open>encode\<close> returns, and ends
  with the exception of the first paragraph that \<open>encode\<close> rejects.
\<close>

lemma prepare_loop_returns:
  assumes "\<forall>(i, p) \<in> set items. \<exists>tokens. enc p = Inr tokens"
  shows "\<exists>segs. prepare_loop enc overhead budget items acc = Inr (acc @ segs)
           \<and> map seg_id segs = map fst items
           \<and> map seg_text segs = map snd items
           \<and> (\<forall>k < length items. \<forall>tokens. enc (snd (items ! k)) = Inr tokens \<longrightarrow>
                 (is_long (segs ! k) \<longleftrightarrow> int (length tokens) + overhead > budget))"
  using assms
proof (induction items arbitrary: acc)
  case Nil
  then show ?case by simp
next
  case (Cons item rest)
  obtain i p where item: "item = (i, p)" by (cases item)
  from Cons.prems obtain tokens where tokens: "enc p = Inr tokens"
    by (auto simp: item)
  let ?seg = "\<lparr>seg_id = i, seg_text = p, is_long = (int (length tokens) + overhead > budget)\<rparr>"
  have step: "prepare_loop enc overhead budget (item # rest) acc
                = prepare_loop enc overhead budget rest (acc @ [?seg])"
    by (simp add: item tokens Let_def)
  from Cons.prems have "\<forall>(i, p) \<in> set rest. \<exists>tokens. enc p = Inr tokens"
    by simp
  from Cons.IH [OF this, of "acc @ [?seg]"] obtain segs where
    r: "prepare_loop enc overhead budget rest (acc @ [?seg]) = Inr ((acc @ [?seg]) @ segs)"
    and ids: "map seg_id segs = map fst rest"
    and txts: "map seg_text segs = map snd rest"
    and long: "\<forall>k < length rest. \<forall>tokens. enc (snd (rest ! k)) = Inr tokens \<longrightarrow>
                 (is_long (segs ! k) \<longleftrightarrow> int (length tokens) + overhead > budget)"
    by blast
  have long': "\<forall>k < length (item # rest). \<forall>tks. enc (snd ((item # rest) ! k)) = Inr tks \<longrightarrow>
                 (is_long ((?seg # segs) ! k) \<longleftrightarrow> int (length tks) + overhead > budget)"
  proof (intro allI impI)
    fix k tks
    assume k: "k < length (item # rest)" and e: "enc (snd ((item # rest) ! k)) = Inr tks"
    show "is_long ((?seg # segs) ! k) \<longleftrightarrow> int (length tks) + overhead > budget"
    proof (cases k)
      case 0
      then show ?thesis using e tokens by (simp add: item)
    next
      case (Suc j)
      then show ?thesis using k e long by simp
    qed
  qed
  show ?case
    by (rule exI [of _ "?seg # segs"]) (use step r ids txts long' in \<open>simp add: item\<close>)
qed

lemma prepare_loop_raises:
  assumes "(i, p) \<in> set items" and "enc p = Inl e"
  shows "\<exists>e'. prepare_loop enc overhead budget items acc = Inl e'"
  using assms
proof (induction items arbitrary: acc)
  case Nil
  then show ?case by simp
next
  case (Cons item rest)
  obtain j q where item: "item = (j, q)" by (cases item)
  show ?case
  proof (cases "enc q")
    case (Inl e0)
    then show ?thesis by (simp add: item)
  next
    case (Inr tokens)
    then have "(i, p) \<in> set rest" using Cons.prems by (auto simp: item)
    from Cons.IH [OF this Cons.prems(2)] show ?thesis
      by (simp add: item Inr Let_def)
  qed
qed


lemma prepare_segments_raise_on_rejected_paragraph:
  assumes "encoding_for_model model_name = Some enc"
      and "p \<in> set paragraphs" and "enc p = Inl e"
  shows "\<exists>e'. prepare_segments_for_api encoding_for_model paragraphs model_name budget = Inl e'"
proof (cases "prompt_overhead enc")
  case (Inl e0)
  then show ?thesis using assms(1) by (simp add: prepare_segments_for_api_def)
next
  case (Inr overhead)
  from assms(2) obtain k where "k < length paragraphs" and "paragraphs ! k = p"
    by (auto simp: in_set_conv_nth)
  then have "(k, p) \<in> set (enumerate 0 paragraphs)"
    by (simp add: in_set_enumerate_eq)
  then have "\<exists>e'. prepare_loop enc overhead budget (enumerate 0 paragraphs) [] = Inl e'"
    using assms(3)
    by (rule prepare_loop_raises
          [where i = k and p = p and enc = enc and e = e and items = "enumerate 0 paragraphs"])
  then show ?thesis
    using assms(1) by (simp add: prepare_segments_for_api_def Inr)
qed

text \<open>
  Claim C5, as stated, fails: \<open>enc.encode(para_text)\<close> is called with the defaults of the
  tokenizer and outside any \<open>try\<close>, so a non-empty trimmed paragraph that contains a
  special token makes \<open>prepare_segments_for_api\<close> raise \<open>ValueError\<close>; no unit is
  emitted, neither for that paragraph nor for the one before it.
\<close>

theorem special_token_paragraph_raises_counterexample:
  "''See <|endoftext|> here'' \<noteq> []
   \<and> strip ''See <|endoftext|> here'' = ''See <|endoftext|> here''
   \<and> prepare_segments_for_api toy_tiktoken [''Intro'', ''See <|endoftext|> here'']
         ''gpt-4o-mini'' 4000
       = Inl (ValueError ''Encountered text corresponding to disallowed special token'')"
proof -
  have a: "char_enc ''Intro'' = Inr [73, 110, 116, 114, 111]"
    by code_simp
  have b: "char_enc ''See <|endoftext|> here''
             = Inl (ValueError ''Encountered text corresponding to disallowed special token'')"
    by code_simp
  have c: "strip ''See <|endoftext|> here'' = ''See <|endoftext|> here''"
    by code_simp
  have "prepare_segments_for_api toy_tiktoken [''Intro'', ''See <|endoftext|> here'']
         ''gpt-4o-mini'' 4000
       = Inl (ValueError ''Encountered text corresponding to disallowed special token'')"
    by (simp add: prepare_segments_for_api_def toy_tiktoken_def toy_overhead a b)
  with c show ?thesis by simp
qed

text \<open>
  Claim C5, amended. When the tokenizer knows the model and encodes the two prompts and
  every paragraph, \<open>prepare_segments_for_api\<close> returns one segment per paragraph: the ids
  are the 0-based positions, the texts are the paragraphs unchanged and in order, and
  the segment at position \<open>i\<close> is marked long exactly when the prompt overhead (the
  tokens of the template with an empty slot, plus the tokens of the system prompt, plus
  200) plus the tokens of paragraph \<open>i\<close> exceeds the budget. No paragraph is dropped,
  long or not.
\<close>

theorem segments_one_per_encoded_paragraph:
  assumes "encoding_for_model model_name = Some enc"
      and "enc (str_replace ''{paragraph_text}'' [] USER_PROMPT_TEMPLATE) = Inr template_tokens"
      and "enc SYSTEM_PROMPT = Inr system_tokens"
      and "\<forall>p \<in> set paragraphs. \<exists>tokens. enc p = Inr tokens"
  shows "\<exists>segs. prepare_segments_for_api encoding_for_model paragraphs model_name budget = Inr segs
           \<and> length segs = length paragraphs
           \<and> map seg_id segs = [0..<length paragraphs]
           \<and> map seg_text segs = paragraphs
           \<and> (\<forall>i < length paragraphs. \<forall>tokens. enc (paragraphs ! i) = Inr tokens \<longrightarrow>
                 (is_long (segs ! i) \<longleftrightarrow>
                    int (length template_tokens) + int (length system_tokens) + 200
                    + int (length tokens) > budget))"
proof -
  let ?overhead = "int (length template_tokens) + int (length system_tokens) + 200"
  let ?items = "enumerate 0 paragraphs"
  have o: "prompt_overhead enc = Inr ?overhead"
    using assms(2,3) by (simp add: prompt_overhead_def)
  have r: "prepare_segments_for_api encoding_for_model paragraphs model_name budget
             = prepare_loop enc ?overhead budget ?items []"
    using assms(1) by (simp add: prepare_segments_for_api_def o)
  have "\<forall>(i, p) \<in> set ?items. \<exists>tokens. enc p = Inr tokens"
    using assms(4) by (auto simp: in_set_enumerate_eq)
  from prepare_loop_returns [OF this, of ?overhead budget "[]"] obtain segs where
    l: "prepare_loop enc ?overhead budget ?items [] = Inr segs"
    and ids: "map seg_id segs = map fst ?items"
    and txts: "map seg_text segs = map snd ?items"
    and long: "\<forall>k < length ?items. \<forall>tokens. enc (snd (?items ! k)) = Inr tokens \<longrightarrow>
                 (is_long (segs ! k) \<longleftrightarrow> int (length tokens) + ?overhead > budget)"
    by auto
  have len: "length segs = length paragraphs"
    using txts by (metis length_map map_snd_enumerate)
  have long': "\<forall>i < length paragraphs. \<forall>tokens. enc (paragraphs ! i) = Inr tokens \<longrightarrow>
                 (is_long (segs ! i) \<longleftrightarrow> ?overhead + int (length tokens) > budget)"
    using long by (simp add: nth_enumerate_eq add.commute)
  show ?thesis
    using r l len ids txts long' by (intro exI [of _ segs]) simp
qed

theorem segments_one_per_encoded_paragraph_witness:
  "toy_tiktoken ''gpt-4o-mini'' = Some char_enc
   \<and> prompt_overhead char_enc = Inr 841
   \<and> char_enc ''abc'' = Inr [97, 98, 99]
   \<and> prepare_segments_for_api toy_tiktoken
         [''abc'', replicate 59 (CHR ''x''), replicate 60 (CHR ''x'')] ''gpt-4o-mini'' 900
       = Inr [\<lparr>seg_id = 0, seg_text = ''abc'', is_long = False\<rparr>,
              \<lparr>seg_id = 1, seg_text = replicate 59 (CHR ''x''), is_long = False\<rparr>,
              \<lparr>seg_id = 2, seg_text = replicate 60 (CHR ''x''), is_long = True\<rparr>]
   \<and> (\<exists>segs. prepare_segments_for_api toy_tiktoken
                 [''abc'', replicate 59 (CHR ''x''), replicate 60 (CHR ''x'')] ''gpt-4o-mini'' 900
               = Inr segs
             \<and> length segs = 3 \<and> map seg_id segs = [0, 1, 2])"
proof -
  let ?ps = "[''abc'', replicate 59 (CHR ''x''), replicate 60 (CHR ''x'')]"
  let ?t = "str_replace ''{paragraph_text}'' [] USER_PROMPT_TEMPLATE"
  have h: "toy_tiktoken ''gpt-4o-mini'' = Some char_enc"
    by (simp add: toy_tiktoken_def)
  obtain tt where t: "char_enc ?t = Inr tt"
    using toy_overhead by (auto simp: prompt_overhead_def split: sum.splits)
  obtain ty where y: "char_enc SYSTEM_PROMPT = Inr ty"
    using toy_overhead by (auto simp: prompt_overhead_def split: sum.splits)
  have a: "char_enc ''abc'' = Inr [97, 98, 99]"
    by code_simp
  have b: "char_enc (replicate 59 (CHR ''x'')) = Inr (map of_char (replicate 59 (CHR ''x'')))"
    by (rule char_enc_without_marker) simp
  have c: "char_enc (replicate 60 (CHR ''x'')) = Inr (map of_char (replicate 60 (CHR ''x'')))"
    by (rule char_enc_without_marker) simp
  have ps: "\<forall>p \<in> set ?ps. \<exists>tokens. char_enc p = Inr tokens"
    using a b c by simp
  have v: "prepare_segments_for_api toy_tiktoken ?ps ''gpt-4o-mini'' 900
       = Inr [\<lparr>seg_id = 0, seg_text = ''abc'', is_long = False\<rparr>,
              \<lparr>seg_id = 1, seg_text = replicate 59 (CHR ''x''), is_long = False\<rparr>,
              \<lparr>seg_id = 2, seg_text = replicate 60 (CHR ''x''), is_long = True\<rparr>]"
    by (simp add: prepare_segments_for_api_def h toy_overhead a b c)
  have u: "[0..<length ?ps] = [0, 1, 2]"
    by (simp add: upt_rec)
  from segments_one_per_encoded_paragraph
         [where encoding_for_model = toy_tiktoken and model_name = "''gpt-4o-mini''"
            and enc = char_enc and budget = 900 and paragraphs = ?ps, OF h t y ps]
  have "\<exists>segs. prepare_segments_for_api toy_tiktoken ?ps ''gpt-4o-mini'' 900 = Inr segs
             \<and> length segs = 3 \<and> map seg_id segs = [0, 1, 2]"
    unfolding u by (elim exE conjE, intro exI conjI) simp_all
  with h toy_overhead a v show ?thesis by blast
qed

section \<open>One record per unit\<close>

text \<open>
  The loop of \<open>process_segments\<close> appends one record per segment; each segment makes
  exactly one call to the service.
\<close>

lemma process_loop_append_results:
  "process_loop svc mt segs results w
     = (results @ fst (process_loop svc mt segs [] w), snd (process_loop svc mt segs [] w))"
proof (induction segs arbitrary: results w)
  case Nil
  show ?case by simp
next
  case (Cons seg rest)
  obtain r w' where st: "process_segment svc mt seg w = (r, w')"
    by (cases "process_segment svc mt seg w")
  show ?case
    by (simp add: st Cons.IH [of "results @ [r]" w'] Cons.IH [of "[r]" w'])
qed

lemma process_segments_Nil: "process_segments svc mt [] w = ([], w)"
  by (simp add: process_segments_def)

lemma process_segments_Cons:
  "process_segments svc mt (seg # rest) w
     = (fst (process_segment svc mt seg w)
          # fst (process_segments svc mt rest (snd (process_segment svc mt seg w))),
        snd (process_segments svc mt rest (snd (process_segment svc mt seg w))))"
  unfolding process_segments_def
  by (cases "process_segment svc mt seg w")
     (simp add: process_loop_append_results [of svc mt rest "[_]"])

lemma length_process_segments:
  "length (fst (process_segments svc mt segs w)) = length segs"
  by (induction segs arbitrary: w) (simp_all add: process_segments_Nil process_segments_Cons)

lemma nth_process_segments:
  "i < length segs \<Longrightarrow>
   fst (process_segments svc mt segs w) ! i
     = fst (process_segment svc mt (segs ! i) (snd (process_segments svc mt (take i segs) w)))"
proof (induction segs arbitrary: i w)
  case Nil
  then show ?case by simp
next
  case (Cons seg rest)
  show ?case
  proof (cases i)
    case 0
    then show ?thesis by (simp add: process_segments_Cons process_segments_Nil)
  next
    case (Suc j)
    then have "j < length rest" using Cons.prems by simp
    from Cons.IH [OF this] show ?thesis
      by (simp add: Suc process_segments_Cons)
  qed
qed

lemma calls_process_segments:
  "snd (process_segments svc mt segs w) = w + length segs"
  by (induction segs arbitrary: w)
     (simp_all add: process_segments_Nil process_segments_Cons process_segment_cases
        split: api_outcome.split sum.split)

text \<open>
  Claim C3. For every list of segments and every behaviour of the service, the pipeline
  returns exactly one record per segment, in the order of the segments: the record at
  position \<open>i\<close> is the one produced for segment \<open>i\<close> (at the \<open>i\<close>-th call after the
  start), whether that unit succeeded or was degraded.
\<close>

theorem one_result_per_segment_in_order:
  "length (fst (process_segments svc max_time segs w)) = length segs
   \<and> (\<forall>i < length segs.
         fst (process_segments svc max_time segs w) ! i
           = fst (process_segment svc max_time (segs ! i) (w + i)))"
proof -
  have "fst (process_segments svc max_time segs w) ! i
           = fst (process_segment svc max_time (segs ! i) (w + i))" if "i < length segs" for i
    using nth_process_segments [OF that, of svc max_time w] that
    by (simp add: calls_process_segments)
  then show ?thesis by (simp add: length_process_segments)
qed


theorem one_result_per_segment_in_order_witness:
  "length (fst (process_segments scenario_service 60 scenario_segments 0)) = 2
   \<and> fst (process_segments scenario_service 60 scenario_segments 0) ! 1
     = \<lparr>original = ''Alredy correct.'', corrected = ''Alredy correct.'', feedback = []\<rparr>"
proof -
  have l: "length scenario_segments = 2" by (simp add: scenario_segments_def)
  have "fst (process_segment scenario_service 60 (scenario_segments ! 1) (0 + 1))
          = \<lparr>original = ''Alredy correct.'', corrected = ''Alredy correct.'', feedback = []\<rparr>"
    by (simp add: process_segment_cases scenario_service_def scenario_segments_def reply_obj_def)
  then show ?thesis
    using one_result_per_segment_in_order [of scenario_service 60 scenario_segments 0] l
    by simp
qed

section \<open>The report\<close>

text \<open>
  The generator expression \<open>sum(1 for edit in proofread_results if ...)\<close> counts the
  records whose corrected text differs from the original.
\<close>

lemma corrected_paragraphs_count:
  "corrected_paragraphs rs = length (filter (\<lambda>edit. original edit \<noteq> corrected edit) rs)"
  unfolding corrected_paragraphs_def by (induction rs) auto

lemma corrected_paragraphs_card:
  "corrected_paragraphs rs = card {i. i < length rs \<and> corrected (rs ! i) \<noteq> original (rs ! i)}"
proof -
  have "{i. i < length rs \<and> corrected (rs ! i) \<noteq> original (rs ! i)}
          = {i. i < length rs \<and> original (rs ! i) \<noteq> corrected (rs ! i)}"
    by auto
  then show ?thesis
    by (simp add: corrected_paragraphs_count length_filter_conv_card)
qed

lemma create_output_document_summary:
  "create_output_document rs = Inr doc \<Longrightarrow> doc ! 1 = summary_block rs"
  by (auto simp: create_output_document_def split: sum.splits)

lemma scenario_results:
  "fst (process_segments scenario_service 60 scenario_segments 0)
     = [\<lparr>original = ''The frist paragraph.'', corrected = ''The first paragraph.'',
         feedback = [''Fixed spelling of '' @ [CHR 0x27] @ ''first'' @ [CHR 0x27] @ ''.'']\<rparr>,
        \<lparr>original = ''Alredy correct.'', corrected = ''Alredy correct.'', feedback = []\<rparr>]"
  by (simp add: scenario_segments_def process_segments_Cons process_segments_Nil
        process_segment_cases scenario_service_def reply_obj_def)

text \<open>
  Claim C8. For every result sequence, the summary of the report gives the length of
  the sequence as the number of processed paragraphs and the number of results whose
  corrected text differs from their original text as the number of corrected ones; the
  summary paragraph is the second block of every document that is produced. In the
  scenario of two paragraphs, where the service corrects the first and leaves the
  second unchanged, there are 2 records, record 0 differs from its original, record 1
  does not, and the count of corrected paragraphs is 1.
\<close>

theorem summary_counts:
  "total_paragraphs rs = length rs
   \<and> corrected_paragraphs rs
       = card {i. i < length rs \<and> corrected (rs ! i) \<noteq> original (rs ! i)}
   \<and> (\<forall>doc. create_output_document rs = Inr doc \<longrightarrow>
         doc ! 1 = RunsPara [(''Summary: '', True),
                             (''Processed '' @ str_nat (length rs) @ '' paragraphs. ''
                              @ str_nat (card {i. i < length rs
                                                 \<and> corrected (rs ! i) \<noteq> original (rs ! i)})
                              @ '' paragraphs had corrections.'', False)])
   \<and> length (fst (process_segments scenario_service 60 scenario_segments 0)) = 2
   \<and> original (fst (process_segments scenario_service 60 scenario_segments 0) ! 0)
       \<noteq> corrected (fst (process_segments scenario_service 60 scenario_segments 0) ! 0)
   \<and> original (fst (process_segments scenario_service 60 scenario_segments 0) ! 1)
       = corrected (fst (process_segments scenario_service 60 scenario_segments 0) ! 1)
   \<and> total_paragraphs (fst (process_segments scenario_service 60 scenario_segments 0)) = 2
   \<and> corrected_paragraphs (fst (process_segments scenario_service 60 scenario_segments 0)) = 1"
proof -
  have t: "total_paragraphs rs = length rs"
    by (simp add: total_paragraphs_def)
  have c: "corrected_paragraphs rs
       = card {i. i < length rs \<and> corrected (rs ! i) \<noteq> original (rs ! i)}"
    by (rule corrected_paragraphs_card)
  have d: "\<forall>doc. create_output_document rs = Inr doc \<longrightarrow>
         doc ! 1 = RunsPara [(''Summary: '', True),
                             (''Processed '' @ str_nat (length rs) @ '' paragraphs. ''
                              @ str_nat (card {i. i < length rs
                                                 \<and> corrected (rs ! i) \<noteq> original (rs ! i)})
                              @ '' paragraphs had corrections.'', False)]"
    using create_output_document_summary [of rs]
    by (simp add: summary_block_def t flip: c)
  have s: "length (fst (process_segments scenario_service 60 scenario_segments 0)) = 2
   \<and> original (fst (process_segments scenario_service 60 scenario_segments 0) ! 0)
       \<noteq> corrected (fst (process_segments scenario_service 60 scenario_segments 0) ! 0)
   \<and> original (fst (process_segments scenario_service 60 scenario_segments 0) ! 1)
       = corrected (fst (process_segments scenario_service 60 scenario_segments 0) ! 1)
   \<and> total_paragraphs (fst (process_segments scenario_service 60 scenario_segments 0)) = 2
   \<and> corrected_paragraphs (fst (process_segments scenario_service 60 scenario_segments 0)) = 1"
    unfolding scenario_results
    by (simp add: total_paragraphs_def corrected_paragraphs_count)
  from t c d s show ?thesis by blast
qed

theorem summary_counts_witness:
  "create_output_document (fst (process_segments scenario_service 60 scenario_segments 0))
     = Inr [Heading ''AI Proofreading Report'' 0,
            RunsPara [(''Summary: '', True),
                      (''Processed 2 paragraphs. 1 paragraphs had corrections.'', False)],
            Para (replicate 50 (CHR ''='')) None False,
            Heading ''Paragraph 1: Original'' 2,
            Para ''The frist paragraph.'' (Some ''Quote'') False,
            Heading ''Paragraph 1: Corrected'' 2,
            Para ''The first paragraph.'' None True,
            Heading ''Paragraph 1: Feedback'' 2,
            Para (''Fixed spelling of '' @ [CHR 0x27] @ ''first'' @ [CHR 0x27] @ ''.'')
              (Some ''List Bullet'') False,
            Para (replicate 30 (CHR ''-'')) None False,
            Heading ''Paragraph 2: Original'' 2,
            Para ''Alredy correct.'' (Some ''Quote'') False,
            Heading ''Paragraph 2: Corrected'' 2,
            Para ''Alredy correct.'' None False,
            Heading ''Paragraph 2: Feedback'' 2,
            Para ''No feedback provided.'' None False,
            Para (replicate 30 (CHR ''-'')) None False]
   \<and> str_nat (card {i. i < length (fst (process_segments scenario_service 60 scenario_segments 0))
                      \<and> corrected (fst (process_segments scenario_service 60 scenario_segments 0) ! i)
                          \<noteq> original (fst (process_segments scenario_service 60 scenario_segments 0) ! i)})
       = ''1''"
proof -
  let ?rs = "fst (process_segments scenario_service 60 scenario_segments 0)"
  have v: "create_output_document ?rs
     = Inr [Heading ''AI Proofreading Report'' 0,
            RunsPara [(''Summary: '', True),
                      (''Processed 2 paragraphs. 1 paragraphs had corrections.'', False)],
            Para (replicate 50 (CHR ''='')) None False,
            Heading ''Paragraph 1: Original'' 2,
            Para ''The frist paragraph.'' (Some ''Quote'') False,
            Heading ''Paragraph 1: Corrected'' 2,
            Para ''The first paragraph.'' None True,
            Heading ''Paragraph 1: Feedback'' 2,
            Para (''Fixed spelling of '' @ [CHR 0x27] @ ''first'' @ [CHR 0x27] @ ''.'')
              (Some ''List Bullet'') False,
            Para (replicate 30 (CHR ''-'')) None False,
            Heading ''Paragraph 2: Original'' 2,
            Para ''Alredy correct.'' (Some ''Quote'') False,
            Heading ''Paragraph 2: Corrected'' 2,
            Para ''Alredy correct.'' None False,
            Heading ''Paragraph 2: Feedback'' 2,
            Para ''No feedback provided.'' None False,
            Para (replicate 30 (CHR ''-'')) None False]"
    unfolding scenario_results by code_simp
  from summary_counts [of ?rs] v
  have "RunsPara [(''Summary: '', True),
                  (''Processed 2 paragraphs. 1 paragraphs had corrections.'', False)]
        = RunsPara [(''Summary: '', True),
                    (''Processed '' @ str_nat (length ?rs) @ '' paragraphs. ''
                     @ str_nat (card {i. i < length ?rs
                                        \<and> corrected (?rs ! i) \<noteq> original (?rs ! i)})
                     @ '' paragraphs had corrections.'', False)]"
    by simp
  moreover have "length ?rs = 2"
    unfolding scenario_results by simp
  ultimately have "str_nat (card {i. i < length ?rs
                                   \<and> corrected (?rs ! i) \<noteq> original (?rs ! i)}) = ''1''"
    by (simp add: str_nat.simps [of 2])
  with v show ?thesis by simp
qed

text \<open>
  The bulleted paragraphs of the report are exactly the non-empty cleaned feedback
  entries: an entry is trimmed, and a leading \<open>- \<close> is removed (once) and the rest
  trimmed again.
\<close>

lemma clean_item_trimmed: "strip (clean_item (strip item)) = clean_item (strip item)"
  by (simp add: clean_item_def strip_strip)

lemma feedback_blocks_bullet_iff:
  "Para t (Some ''List Bullet'') h \<in> set (feedback_blocks fb) \<longleftrightarrow>
     \<not> h \<and> t \<noteq> [] \<and> (\<exists>item \<in> set fb. t = clean_item (strip item))"
proof -
  have empty: "clean_item [] = []"
    by (simp add: clean_item_def startswith_def)
  show ?thesis
    unfolding feedback_blocks_def Let_def comprehension_filter_map
    by (auto simp: empty filter_empty_conv split: if_splits)
qed

lemma item_blocks_bullet_iff:
  "item_blocks i e = Inr bs \<Longrightarrow>
   Para t (Some ''List Bullet'') h \<in> set bs
     \<longleftrightarrow> Para t (Some ''List Bullet'') h \<in> set (feedback_blocks (feedback e))"
  by (auto simp: item_blocks_def split: if_splits)

lemma render_items_blocks:
  "render_items ps = Inr body \<Longrightarrow>
   b \<in> set body \<longleftrightarrow> (\<exists>(i, e) \<in> set ps. \<exists>bs. item_blocks i e = Inr bs \<and> b \<in> set bs)"
proof (induction ps arbitrary: body)
  case Nil
  then show ?case by simp
next
  case (Cons p ps)
  obtain i e where p: "p = (i, e)" by (cases p)
  from Cons.prems obtain bs bs' where
    bs: "item_blocks i e = Inr bs" and bs': "render_items ps = Inr bs'" and body: "body = bs @ bs'"
    by (auto simp: p split: sum.splits)
  show ?case
    using Cons.IH [OF bs'] bs by (auto simp: p body)
qed

lemma render_items_all_ok:
  "render_items ps = Inr body \<Longrightarrow> (i, e) \<in> set ps \<Longrightarrow> \<exists>bs. item_blocks i e = Inr bs"
proof (induction ps arbitrary: body)
  case Nil
  then show ?case by simp
next
  case (Cons p ps)
  obtain j d where p: "p = (j, d)" by (cases p)
  from Cons.prems(1) obtain bs bs' where
    bs: "item_blocks j d = Inr bs" and bs': "render_items ps = Inr bs'"
    by (auto simp: p split: sum.splits)
  show ?case
    using Cons.IH [OF bs'] Cons.prems(2) bs by (auto simp: p)
qed

lemma document_bullet_iff:
  assumes "create_output_document rs = Inr doc"
  shows "Para t (Some ''List Bullet'') h \<in> set doc \<longleftrightarrow>
           \<not> h \<and> t \<noteq> [] \<and> (\<exists>e \<in> set rs. \<exists>item \<in> set (feedback e). t = clean_item (strip item))"
proof -
  let ?b = "Para t (Some ''List Bullet'') h"
  have snd_enumerate: "snd ` set (enumerate 0 rs) = set rs"
    by (simp flip: set_map)
  from assms obtain body where
    body: "render_items (enumerate 0 rs) = Inr body"
    and doc: "doc = [Heading ''AI Proofreading Report'' 0, summary_block rs,
                     Para (replicate 50 (CHR ''='')) None False] @ body"
    by (auto simp: create_output_document_def split: sum.splits)
  have "?b \<in> set doc \<longleftrightarrow> ?b \<in> set body"
    by (simp add: doc summary_block_def)
  also have "\<dots> \<longleftrightarrow> (\<exists>(i, e) \<in> set (enumerate 0 rs). \<exists>bs. item_blocks i e = Inr bs \<and> ?b \<in> set bs)"
    by (rule render_items_blocks [OF body])
  also have "\<dots> \<longleftrightarrow> (\<exists>(i, e) \<in> set (enumerate 0 rs). ?b \<in> set (feedback_blocks (feedback e)))"
    using render_items_all_ok [OF body] item_blocks_bullet_iff by blast
  also have "\<dots> \<longleftrightarrow> (\<exists>e \<in> snd ` set (enumerate 0 rs). ?b \<in> set (feedback_blocks (feedback e)))"
    by force
  also have "\<dots> \<longleftrightarrow> (\<exists>e \<in> set rs. ?b \<in> set (feedback_blocks (feedback e)))"
    by (simp only: snd_enumerate)
  also have "\<dots> \<longleftrightarrow> \<not> h \<and> t \<noteq> [] \<and> (\<exists>e \<in> set rs. \<exists>item \<in> set (feedback e). t = clean_item (strip item))"
    by (auto simp: feedback_blocks_bullet_iff)
  finally show ?thesis .
qed

text \<open>
  Claim C9, as stated, fails on the bullet marker: only the two characters \<open>- \<close> are
  removed, and only once. The entry \<open>- - nested\<close> is handed over as \<open>- nested\<close>, which
  still starts with the marker, and the entry \<open>* star\<close> keeps its marker.
\<close>

theorem bullet_marker_left_counterexample:
  "create_output_document bulleted_results
     = Inr [Heading ''AI Proofreading Report'' 0,
            RunsPara [(''Summary: '', True),
                      (''Processed 1 paragraphs. 1 paragraphs had corrections.'', False)],
            Para (replicate 50 (CHR ''='')) None False,
            Heading ''Paragraph 1: Original'' 2,
            Para ''Teh cat'' (Some ''Quote'') False,
            Heading ''Paragraph 1: Corrected'' 2,
            Para ''The cat'' None True,
            Heading ''Paragraph 1: Feedback'' 2,
            Para ''Fixed spelling.'' (Some ''List Bullet'') False,
            Para ''Consider a comma'' (Some ''List Bullet'') False,
            Para ''- nested'' (Some ''List Bullet'') False,
            Para (replicate 30 (CHR ''-'')) None False]
   \<and> startswith ''- nested'' ''- ''
   \<and> feedback_blocks [''* star''] = [Para ''* star'' (Some ''List Bullet'') False]"
proof -
  have v: "create_output_document bulleted_results
     = Inr [Heading ''AI Proofreading Report'' 0,
            RunsPara [(''Summary: '', True),
                      (''Processed 1 paragraphs. 1 paragraphs had corrections.'', False)],
            Para (replicate 50 (CHR ''='')) None False,
            Heading ''Paragraph 1: Original'' 2,
            Para ''Teh cat'' (Some ''Quote'') False,
            Heading ''Paragraph 1: Corrected'' 2,
            Para ''The cat'' None True,
            Heading ''Paragraph 1: Feedback'' 2,
            Para ''Fixed spelling.'' (Some ''List Bullet'') False,
            Para ''Consider a comma'' (Some ''List Bullet'') False,
            Para ''- nested'' (Some ''List Bullet'') False,
            Para (replicate 30 (CHR ''-'')) None False]"
    by code_simp
  have s: "startswith ''- nested'' ''- ''"
    by code_simp
  have f: "feedback_blocks [''* star''] = [Para ''* star'' (Some ''List Bullet'') False]"
    by code_simp
  from v s f show ?thesis by blast
qed

text \<open>
  Claim C9, amended. Every feedback text handed to the report as a bulleted paragraph is
  whitespace-trimmed, non-empty, and is a feedback entry of some result, trimmed, from
  which one leading \<open>- \<close> (a hyphen and a space), if the trimmed entry starts with it,
  has been removed and the rest trimmed again; and every feedback entry whose text
  cleaned in this way is not empty is handed over in that form. Any other marker, and
  a second \<open>- \<close>, stay in the text.
\<close>

theorem feedback_handed_trimmed_one_dash_removed:
  assumes "create_output_document rs = Inr doc"
  shows "(\<forall>t h. Para t (Some ''List Bullet'') h \<in> set doc \<longrightarrow>
            strip t = t \<and> t \<noteq> []
            \<and> (\<exists>e \<in> set rs. \<exists>item \<in> set (feedback e).
                  t = (if startswith (strip item) ''- '' then strip (drop 2 (strip item))
                       else strip item)))
       \<and> (\<forall>e \<in> set rs. \<forall>item \<in> set (feedback e).
            (if startswith (strip item) ''- '' then strip (drop 2 (strip item)) else strip item) \<noteq> []
            \<longrightarrow> Para (if startswith (strip item) ''- '' then strip (drop 2 (strip item))
                      else strip item) (Some ''List Bullet'') False \<in> set doc)"
proof -
  have c: "clean_item (strip item)
             = (if startswith (strip item) ''- '' then strip (drop 2 (strip item)) else strip item)"
    for item
    by (simp add: clean_item_def)
  have 1: "strip t = t \<and> t \<noteq> []
            \<and> (\<exists>e \<in> set rs. \<exists>item \<in> set (feedback e).
                  t = (if startswith (strip item) ''- '' then strip (drop 2 (strip item))
                       else strip item))"
    if "Para t (Some ''List Bullet'') h \<in> set doc" for t h
  proof -
    from that obtain e item where e: "e \<in> set rs" and item: "item \<in> set (feedback e)"
      and t: "t = clean_item (strip item)" and ne: "t \<noteq> []"
      using document_bullet_iff [OF assms] by blast
    have "strip t = t" unfolding t by (rule clean_item_trimmed)
    with e item t ne show ?thesis unfolding c [symmetric] by blast
  qed
  have 2: "Para (if startswith (strip item) ''- '' then strip (drop 2 (strip item))
                 else strip item) (Some ''List Bullet'') False \<in> set doc"
    if "e \<in> set rs" "item \<in> set (feedback e)"
       "(if startswith (strip item) ''- '' then strip (drop 2 (strip item)) else strip item) \<noteq> []"
    for e item
    using that unfolding c [symmetric] document_bullet_iff [OF assms] by blast
  from 1 2 show ?thesis by blast
qed


theorem feedback_handed_trimmed_one_dash_removed_witness:
  "create_output_document bulleted_results
     = Inr [Heading ''AI Proofreading Report'' 0,
            RunsPara [(''Summary: '', True),
                      (''Processed 1 paragraphs. 1 paragraphs had corrections.'', False)],
            Para (replicate 50 (CHR ''='')) None False,
            Heading ''Paragraph 1: Original'' 2,
            Para ''Teh cat'' (Some ''Quote'') False,
            Heading ''Paragraph 1: Corrected'' 2,
            Para ''The cat'' None True,
            Heading ''Paragraph 1: Feedback'' 2,
            Para ''Fixed spelling.'' (Some ''List Bullet'') False,
            Para ''Consider a comma'' (Some ''List Bullet'') False,
            Para ''- nested'' (Some ''List Bullet'') False,
            Para (replicate 30 (CHR ''-'')) None False]
   \<and> strip ''Fixed spelling.'' = ''Fixed spelling.''
   \<and> (\<exists>e \<in> set bulleted_results. \<exists>item \<in> set (feedback e).
          ''Fixed spelling.''
            = (if startswith (strip item) ''- '' then strip (drop 2 (strip item))
               else strip item))"
proof -
  have v: "create_output_document bulleted_results
     = Inr [Heading ''AI Proofreading Report'' 0,
            RunsPara [(''Summary: '', True),
                      (''Processed 1 paragraphs. 1 paragraphs had corrections.'', False)],
            Para (replicate 50 (CHR ''='')) None False,
            Heading ''Paragraph 1: Original'' 2,
            Para ''Teh cat'' (Some ''Quote'') False,
            Heading ''Paragraph 1: Corrected'' 2,
            Para ''The cat'' None True,
            Heading ''Paragraph 1: Feedback'' 2,
            Para ''Fixed spelling.'' (Some ''List Bullet'') False,
            Para ''Consider a comma'' (Some ''List Bullet'') False,
            Para ''- nested'' (Some ''List Bullet'') False,
            Para (replicate 30 (CHR ''-'')) None False]"
    by code_simp
  from feedback_handed_trimmed_one_dash_removed [OF v]
  have "Para ''Fixed spelling.'' (Some ''List Bullet'') False
          \<in> set [Heading ''AI Proofreading Report'' 0,
            RunsPara [(''Summary: '', True),
                      (''Processed 1 paragraphs. 1 paragraphs had corrections.'', False)],
            Para (replicate 50 (CHR ''='')) None False,
            Heading ''Paragraph 1: Original'' 2,
            Para ''Teh cat'' (Some ''Quote'') False,
            Heading ''Paragraph 1: Corrected'' 2,
            Para ''The cat'' None True,
            Heading ''Paragraph 1: Feedback'' 2,
            Para ''Fixed spelling.'' (Some ''List Bullet'') False,
            Para ''Consider a comma'' (Some ''List Bullet'') False,
            Para ''- nested'' (Some ''List Bullet'') False,
            Para (replicate 30 (CHR ''-'')) None False]
        \<longrightarrow> strip ''Fixed spelling.'' = ''Fixed spelling.''
          \<and> (\<exists>e \<in> set bulleted_results. \<exists>item \<in> set (feedback e).
               ''Fixed spelling.''
                 = (if startswith (strip item) ''- '' then strip (drop 2 (strip item))
                    else strip item))"
    by blast
  then have "strip ''Fixed spelling.'' = ''Fixed spelling.''
          \<and> (\<exists>e \<in> set bulleted_results. \<exists>item \<in> set (feedback e).
               ''Fixed spelling.''
                 = (if startswith (strip item) ''- '' then strip (drop 2 (strip item))
                    else strip item))"
    by simp
  with v show ?thesis by blast
qed

end
